theory Spec2Isabelle
  imports Main
begin

section \<open>The PIX notifier service worker (service-worker.js)\<close>

text \<open>
  The worker is a set of event listeners over the browser's service-worker platform.
  Each listener is embedded as a function from the state of the platform (the world) to an
  outcome and the world after the listener's work has settled. A promise is a computation
  that either resolves with a value or rejects with an error; \<open>then\<close> and \<open>catch\<close> are the
  two combinators the source chains them with. Strings are lists of bytes (UTF-8), so the
  two non-ASCII texts of the source are written with their bytes. Calls of \<open>console.log\<close>
  write to the developer console only and are left out.
\<close>

subsection \<open>Strings\<close>

text \<open>\<open>String.prototype.includes\<close>: the second string occurs somewhere in the first.\<close>

fun str_includes :: "string \<Rightarrow> string \<Rightarrow> bool" where
  "str_includes [] t = (t = [])"
| "str_includes (c # cs) t = (take (length t) (c # cs) = t \<or> str_includes cs t)"

definition startsWith :: "string \<Rightarrow> string \<Rightarrow> bool" where
  "startsWith s t = (take (length t) s = t)"

subsection \<open>Notifications, clients and messages\<close>

text \<open>
  The option object of \<open>showNotification\<close> and the entries of its \<open>actions\<close> array, a
  client of the worker (\<open>clients.matchAll\<close> returns objects with a \<open>url\<close> and a \<open>type\<close>;
  only the clients of type \<open>window\<close> have a \<open>focus\<close> method), and the object the worker
  posts back on a message port.
\<close>

record notification_action =
  action :: string
  title :: string
  icon :: string

record options =
  body :: string
  icon :: string
  badge :: string
  vibrate :: "nat list"
  tag :: string
  requireInteraction :: bool
  actions :: "notification_action list"

datatype client_type = Window | Worker | SharedWorker

record client =
  url :: string
  type :: client_type

record reply =
  type :: string
  status :: string

type_synonym port = nat

text \<open>
  The \<open>data\<close> of a message event is any value the page posted. The listener only tests
  whether it is truthy and what its \<open>type\<close> property is: \<open>NoData\<close> is a falsy value
  (\<open>null\<close>, \<open>undefined\<close>, \<open>0\<close>, the empty string), \<open>Data t\<close> a truthy value whose
  \<open>type\<close> property is the string \<open>t\<close>, or is not a string at all (\<open>None\<close>).
\<close>

datatype message_data = NoData | Data "string option"

subsection \<open>Requests and responses\<close>

text \<open>
  The fields keep the names of the source. Where a record above has a field of the same
  name, a plain \<open>url\<close>, \<open>status\<close> or \<open>body\<close> is the field of the request or the response,
  and the other one is written with its record (\<open>client.url\<close>, \<open>reply.status\<close>,
  \<open>options.body\<close>).
\<close>

record request =
  "method" :: string
  url :: string

record response =
  status :: nat
  statusText :: string
  headers :: "(string \<times> string) list"
  body :: string

text \<open>
  \<open>response.clone()\<close> gives a second response object with the same status, headers and
  body, so that one copy can be consumed by the cache while the other is handed to the page.
  Responses are values here, and the copy is the value itself.
\<close>

definition clone :: "response \<Rightarrow> response" where
  "clone r = r"

subsection \<open>Header lists\<close>

text \<open>
  Header names are compared without regard to ASCII case. An upper-case letter (bytes 65
  to 90) becomes the lower-case one by setting the bit of value 32.
\<close>

definition ascii_lower :: "char \<Rightarrow> char" where
  "ascii_lower c =
     (let n = (of_char c :: nat)
      in if 65 \<le> n \<and> n \<le> 90
         then (case c of Char b0 b1 b2 b3 b4 b5 b6 b7 \<Rightarrow> Char b0 b1 b2 b3 b4 True b6 b7)
         else c)"

definition header_values :: "(string \<times> string) list \<Rightarrow> string \<Rightarrow> string list" where
  "header_values hs name =
     map snd (filter (\<lambda>(n, v). map ascii_lower n = map ascii_lower name) hs)"

fun split_commas :: "string \<Rightarrow> string list" where
  "split_commas [] = [[]]"
| "split_commas (c # cs) =
     (if c = CHR '','' then [] # split_commas cs
      else (case split_commas cs of
              [] \<Rightarrow> [[c]]
            | w # ws \<Rightarrow> (c # w) # ws))"

definition is_http_space :: "char \<Rightarrow> bool" where
  "is_http_space c = (c = CHR '' '' \<or> c = CHR 0x09)"

definition trim :: "string \<Rightarrow> string" where
  "trim s = rev (dropWhile is_http_space (rev (dropWhile is_http_space s)))"

text \<open>The response carries a \<open>Vary\<close> header one of whose field values is \<open>*\<close>.\<close>

definition vary_star :: "response \<Rightarrow> bool" where
  "vary_star r =
     list_ex (\<lambda>v. list_ex (\<lambda>f. trim f = ''*'') (split_commas v))
       (header_values (headers r) ''Vary'')"

subsection \<open>The platform's cache storage\<close>

text \<open>
  A cache is the list of its (request, response) entries in insertion order; the cache
  storage is the list of named caches in creation order. The operations follow the
  Service Worker specification's \<open>Cache\<close> and \<open>CacheStorage\<close> interfaces, with the default
  query options the source uses:
  \<^item> a lookup compares URLs without their fragments and finds nothing for a request whose
    method is not \<open>GET\<close>;
  \<^item> \<open>put\<close> rejects with a \<open>TypeError\<close> unless the request's method is \<open>GET\<close> and its URL's
    scheme is \<open>http\<close> or \<open>https\<close>, and also when the response has status 206 or a
    \<open>Vary: *\<close> header; otherwise it replaces the entries the request matches by the new one;
  \<^item> \<open>caches.match\<close> asks the caches in creation order and answers with the first hit.
  Requests carry no headers in this model: two requests with the same method and URL agree
  on every header, so a \<open>Vary\<close> header never separates them.
\<close>

type_synonym cache = "(request \<times> response) list"
type_synonym cache_storage = "(string \<times> cache) list"

definition strip_fragment :: "string \<Rightarrow> string" where
  "strip_fragment u = takeWhile (\<lambda>c. c \<noteq> CHR ''#'') u"

definition request_matches :: "request \<Rightarrow> request \<Rightarrow> bool" where
  "request_matches query cached =
     (method query = ''GET'' \<and> strip_fragment (url query) = strip_fragment (url cached))"

definition cache_match :: "cache \<Rightarrow> request \<Rightarrow> response option" where
  "cache_match c query = map_option snd (find (\<lambda>(cached, _). request_matches query cached) c)"

definition http_scheme :: "string \<Rightarrow> bool" where
  "http_scheme u = (startsWith u ''http://'' \<or> startsWith u ''https://'')"

definition put_admissible :: "request \<Rightarrow> response \<Rightarrow> bool" where
  "put_admissible req resp =
     (http_scheme (url req) \<and> method req = ''GET'' \<and> status resp \<noteq> 206 \<and> \<not> vary_star resp)"

definition cache_put :: "cache \<Rightarrow> request \<Rightarrow> response \<Rightarrow> cache" where
  "cache_put c req resp =
     filter (\<lambda>(cached, _). \<not> request_matches req cached) c @ [(req, resp)]"

fun storage_match :: "cache_storage \<Rightarrow> request \<Rightarrow> response option" where
  "storage_match [] query = None"
| "storage_match ((name, c) # rest) query =
     (case cache_match c query of
        Some r \<Rightarrow> Some r
      | None \<Rightarrow> storage_match rest query)"

definition storage_keys :: "cache_storage \<Rightarrow> string list" where
  "storage_keys st = map fst st"

definition storage_open :: "cache_storage \<Rightarrow> string \<Rightarrow> cache_storage" where
  "storage_open st name = (if name \<in> set (storage_keys st) then st else st @ [(name, [])])"

definition storage_delete :: "cache_storage \<Rightarrow> string \<Rightarrow> cache_storage" where
  "storage_delete st name = filter (\<lambda>(n, _). n \<noteq> name) st"

definition storage_put :: "cache_storage \<Rightarrow> string \<Rightarrow> request \<Rightarrow> response \<Rightarrow> cache_storage" where
  "storage_put st name req resp =
     map (\<lambda>(n, c). if n = name then (n, cache_put c req resp) else (n, c)) st"

definition storage_cache :: "cache_storage \<Rightarrow> string \<Rightarrow> cache" where
  "storage_cache st name = (case map_of st name of Some c \<Rightarrow> c | None \<Rightarrow> [])"

subsection \<open>The world, effects and promises\<close>

text \<open>
  The world is what the platform holds for the worker: the origin its script was loaded
  from, the network (a request gets a response, or the call fails), the cache storage, the
  clients of the origin, whether \<open>clients.openWindow\<close> is defined (the source tests it),
  and the trace of the calls with an effect outside the worker, oldest first. Of the two
  errors, \<open>NetworkError\<close> is the rejection of \<open>fetch\<close> when the network call fails (the
  browser makes it a \<open>TypeError\<close> as well; it is kept apart to tell the causes from each
  other), and \<open>TypeError\<close> is every other one.
\<close>

datatype error = TypeError | NetworkError

datatype effect =
    NetFetch request
  | CachePut string request response
  | CacheDelete string
  | SkipWaiting
  | ClientsClaim
  | ShowNotification string options
  | NotificationClose
  | ClientFocus client
  | OpenWindow string
  | PostMessage port reply

record world =
  location_origin :: string
  network :: "request \<Rightarrow> response option"
  caches :: cache_storage
  clients :: "client list"
  openWindow_defined :: bool
  trace :: "effect list"

definition log :: "effect \<Rightarrow> world \<Rightarrow> world" where
  "log e w = w\<lparr>trace := trace w @ [e]\<rparr>"

text \<open>
  A promise runs in a world and settles: \<open>Inr\<close> is the value it resolves with, \<open>Inl\<close> the
  error it rejects with. A synchronous listener that throws is a promise that rejects.
  \<open>then_p\<close> is \<open>promise.then(f)\<close>, \<open>catch_p\<close> is \<open>promise.catch(h)\<close>. \<open>detach\<close> is a
  promise that the code creates and neither returns nor awaits: its work is done, its
  outcome, a rejection too, reaches nobody. The world a listener returns is the world
  once every promise it created has settled.
\<close>

type_synonym 'a promise = "world \<Rightarrow> (error + 'a) \<times> world"

definition resolve :: "'a \<Rightarrow> 'a promise" where
  "resolve x = (\<lambda>w. (Inr x, w))"

definition reject :: "error \<Rightarrow> 'a promise" where
  "reject e = (\<lambda>w. (Inl e, w))"

definition then_p :: "'a promise \<Rightarrow> ('a \<Rightarrow> 'b promise) \<Rightarrow> 'b promise" where
  "then_p p f = (\<lambda>w. case p w of
                       (Inr x, w') \<Rightarrow> f x w'
                     | (Inl e, w') \<Rightarrow> (Inl e, w'))"

definition catch_p :: "'a promise \<Rightarrow> (error \<Rightarrow> 'a promise) \<Rightarrow> 'a promise" where
  "catch_p p h = (\<lambda>w. case p w of
                        (Inr x, w') \<Rightarrow> (Inr x, w')
                      | (Inl e, w') \<Rightarrow> h e w')"

definition detach :: "'a promise \<Rightarrow> unit promise" where
  "detach p = (\<lambda>w. (Inr (), snd (p w)))"

text \<open>
  \<open>Promise.all\<close> over promises that have all been started: every one of them does its
  work, and the result rejects with the first error when one of them rejects.
\<close>

fun promise_all :: "'a promise list \<Rightarrow> 'a list promise" where
  "promise_all [] = resolve []"
| "promise_all (p # ps) =
     (\<lambda>w. case p w of
             (r, w') \<Rightarrow>
               (case promise_all ps w' of
                  (rs, w'') \<Rightarrow>
                    ((case r of
                        Inl e \<Rightarrow> Inl e
                      | Inr x \<Rightarrow> (case rs of Inl e \<Rightarrow> Inl e | Inr xs \<Rightarrow> Inr (x # xs))),
                     w'')))"

subsection \<open>The platform's calls\<close>

definition fetch :: "request \<Rightarrow> response promise" where
  "fetch req = (\<lambda>w. case network w req of
                      Some r \<Rightarrow> (Inr r, log (NetFetch req) w)
                    | None \<Rightarrow> (Inl NetworkError, log (NetFetch req) w))"

definition caches_match :: "request \<Rightarrow> response option promise" where
  "caches_match req = (\<lambda>w. (Inr (storage_match (caches w) req), w))"

text \<open>\<open>caches.open\<close> creates the cache when there is none of that name. The cache object
  it resolves with is represented by the name.\<close>

definition caches_open :: "string \<Rightarrow> string promise" where
  "caches_open name = (\<lambda>w. (Inr name, w\<lparr>caches := storage_open (caches w) name\<rparr>))"

definition caches_keys :: "string list promise" where
  "caches_keys = (\<lambda>w. (Inr (storage_keys (caches w)), w))"

definition caches_delete :: "string \<Rightarrow> bool promise" where
  "caches_delete name =
     (\<lambda>w. (Inr (name \<in> set (storage_keys (caches w))),
            log (CacheDelete name) (w\<lparr>caches := storage_delete (caches w) name\<rparr>)))"

definition cache_put_p :: "string \<Rightarrow> request \<Rightarrow> response \<Rightarrow> unit promise" where
  "cache_put_p cache req resp =
     (\<lambda>w. if put_admissible req resp
           then (Inr (), log (CachePut cache req resp)
                           (w\<lparr>caches := storage_put (caches w) cache req resp\<rparr>))
           else (Inl TypeError, w))"

text \<open>
  \<open>cache.addAll\<close> makes a \<open>GET\<close> request of each URL (the manifest's URLs are paths from the
  root, resolved against the worker's origin), rejects at once when a URL's scheme is not
  \<open>http\<close> or \<open>https\<close>, fetches them all, and rejects, writing nothing, when a fetch fails or
  a response is not one with status 200 to 299 other than 206 and without \<open>Vary: *\<close>.
  Only then are all the entries written.
\<close>

definition resolve_url :: "string \<Rightarrow> string \<Rightarrow> string" where
  "resolve_url origin path = origin @ path"

definition ok_status :: "response \<Rightarrow> bool" where
  "ok_status r = (200 \<le> status r \<and> status r \<le> 299)"

fun put_all :: "string \<Rightarrow> (request \<times> response) list \<Rightarrow> world \<Rightarrow> world" where
  "put_all cache [] w = w"
| "put_all cache ((req, resp) # rest) w =
     put_all cache rest
       (log (CachePut cache req resp) (w\<lparr>caches := storage_put (caches w) cache req resp\<rparr>))"

definition cache_addAll :: "string \<Rightarrow> string list \<Rightarrow> unit promise" where
  "cache_addAll cache urls =
     (\<lambda>w. let requests = map (\<lambda>u. \<lparr>method = ''GET'', url = resolve_url (location_origin w) u\<rparr>) urls
           in if \<not> list_all (\<lambda>r. http_scheme (url r)) requests then (Inl TypeError, w)
              else then_p (promise_all (map fetch requests))
                     (\<lambda>responses.
                        if list_all (\<lambda>r. ok_status r \<and> status r \<noteq> 206 \<and> \<not> vary_star r) responses
                        then (\<lambda>w'. (Inr (), put_all cache (zip requests responses) w'))
                        else reject TypeError) w)"

definition skipWaiting :: "unit promise" where
  "skipWaiting = (\<lambda>w. (Inr (), log SkipWaiting w))"

definition clients_claim :: "unit promise" where
  "clients_claim = (\<lambda>w. (Inr (), log ClientsClaim w))"

definition showNotification :: "string \<Rightarrow> options \<Rightarrow> unit promise" where
  "showNotification t opts = (\<lambda>w. (Inr (), log (ShowNotification t opts) w))"

definition notification_close :: "unit promise" where
  "notification_close = (\<lambda>w. (Inr (), log NotificationClose w))"

text \<open>\<open>clients.matchAll({ type: 'window', includeUncontrolled: true })\<close>: the window
  clients of the origin, whether this worker controls them or not.\<close>

definition clients_matchAll_window :: "client list promise" where
  "clients_matchAll_window = (\<lambda>w. (Inr (filter (\<lambda>c. client.type c = Window) (clients w)), w))"

definition has_focus :: "client \<Rightarrow> bool" where
  "has_focus c = (client.type c = Window)"

definition client_focus :: "client \<Rightarrow> unit promise" where
  "client_focus c = (\<lambda>w. (Inr (), log (ClientFocus c) w))"

definition clients_openWindow :: "string \<Rightarrow> unit promise" where
  "clients_openWindow u = (\<lambda>w. (Inr (), log (OpenWindow u) w))"

definition postMessage :: "port \<Rightarrow> reply \<Rightarrow> unit promise" where
  "postMessage p m = (\<lambda>w. (Inr (), log (PostMessage p m) w))"

subsection \<open>The listeners\<close>

definition CACHE_NAME :: string where
  "CACHE_NAME = ''pix-notifier-v1''"

definition urlsToCache :: "string list" where
  "urlsToCache = [''/'', ''/index.html'', ''/manifest.json'']"

text \<open>The \<open>install\<close> listener (lines 13 to 24).\<close>

definition install_listener :: "unit promise" where
  "install_listener =
     then_p (then_p (caches_open CACHE_NAME) (\<lambda>cache. cache_addAll cache urlsToCache))
       (\<lambda>_. skipWaiting)"

text \<open>
  The \<open>activate\<close> listener (lines 27 to 42). The callback of \<open>map\<close> returns the promise of
  \<open>caches.delete\<close> for a stale name and \<open>undefined\<close> (here \<open>None\<close>) for the current one.
\<close>

definition activate_listener :: "unit promise" where
  "activate_listener =
     then_p
       (then_p caches_keys
          (\<lambda>cacheNames.
             promise_all
               (map (\<lambda>cacheName.
                       if cacheName \<noteq> CACHE_NAME
                       then then_p (caches_delete cacheName) (\<lambda>deleted. resolve (Some deleted))
                       else resolve None)
                  cacheNames)))
       (\<lambda>_. clients_claim)"

text \<open>
  The \<open>fetch\<close> listener (lines 45 to 83); its result is the promise handed to
  \<open>event.respondWith\<close>. The test \<open>response && response.status === 200\<close> is the test of the
  status: a fetch that resolves always resolves with a response object. The promise of
  \<open>caches.open(...).then(...)\<close> is not returned, and neither is the one of \<open>cache.put\<close>
  inside it: both are detached. The text of the fallback ends in \<open>conex\<close>, the two bytes of
  a with tilde, and \<open>o\<close>.
\<close>

definition offline_response :: response where
  "offline_response =
     \<lparr>status = 503,
      statusText = ''Service Unavailable'',
      headers = [(''Content-Type'', ''text/plain'')],
      body = ''Offline - Sem conex'' @ [CHR 0xC3, CHR 0xA3] @ ''o''\<rparr>"

definition fetch_listener :: "request \<Rightarrow> response promise" where
  "fetch_listener request =
     catch_p
       (then_p (caches_match request)
          (\<lambda>response.
             case response of
               Some cached \<Rightarrow> resolve cached
             | None \<Rightarrow>
                 then_p (fetch request)
                   (\<lambda>response.
                      if str_includes (url request) ''/api/'' then resolve response
                      else then_p
                             (if status response = 200
                              then (let responseToCache = clone response
                                    in detach
                                         (then_p (caches_open CACHE_NAME)
                                            (\<lambda>cache. detach (cache_put_p cache request responseToCache))))
                              else resolve ())
                             (\<lambda>_. resolve response))))
       (\<lambda>_. resolve offline_response)"

text \<open>
  The \<open>push\<close> listener (lines 86 to 113). \<open>event.data\<close> is \<open>null\<close> (here \<open>None\<close>) or an
  object, which is truthy whatever its text is; \<open>data\<close> is that text. The title is the four
  bytes of the money-bag sign followed by \<open> Novo PIX!\<close>.
\<close>

definition notification_title :: string where
  "notification_title = [CHR 0xF0, CHR 0x9F, CHR 0x92, CHR 0xB0] @ '' Novo PIX!''"

definition push_options :: "string option \<Rightarrow> options" where
  "push_options data =
     \<lparr>options.body = (case data of Some text \<Rightarrow> text | None \<Rightarrow> ''Novo PIX gerado!''),
      options.icon = ''https://cdn-icons-png.flaticon.com/512/825/825454.png'',
      badge = ''https://cdn-icons-png.flaticon.com/512/825/825454.png'',
      vibrate = [200, 100, 200, 100, 200],
      tag = ''pix-notification'',
      requireInteraction = True,
      actions =
        [\<lparr>action = ''view'',
          title = ''Ver Detalhes'',
          notification_action.icon = ''https://cdn-icons-png.flaticon.com/512/709/709612.png''\<rparr>,
         \<lparr>action = ''close'',
          title = ''Fechar'',
          notification_action.icon = ''https://cdn-icons-png.flaticon.com/512/458/458594.png''\<rparr>]\<rparr>"

definition push_listener :: "string option \<Rightarrow> unit promise" where
  "push_listener data = showNotification notification_title (push_options data)"

text \<open>
  The \<open>notificationclick\<close> listener (lines 116 to 141), given \<open>event.action\<close>. The loop
  returns at the first client whose URL includes \<open>index.html\<close> and that has a \<open>focus\<close>
  method.
\<close>

fun first_focusable :: "client list \<Rightarrow> client option" where
  "first_focusable [] = None"
| "first_focusable (client # rest) =
     (if str_includes (client.url client) ''index.html'' \<and> has_focus client then Some client
      else first_focusable rest)"

definition notificationclick_listener :: "string \<Rightarrow> unit promise" where
  "notificationclick_listener event_action =
     then_p notification_close
       (\<lambda>_. if event_action = ''view''
            then then_p clients_matchAll_window
                   (\<lambda>clientList.
                      case first_focusable clientList of
                        Some client \<Rightarrow> client_focus client
                      | None \<Rightarrow>
                          (\<lambda>w. if openWindow_defined w then clients_openWindow ''/'' w
                                else resolve () w))
            else resolve ())"

text \<open>
  The \<open>message\<close> listener (lines 149 to 160), given \<open>event.data\<close> and \<open>event.ports\<close>.
  \<open>event.ports[0]\<close> of an empty array is \<open>undefined\<close>, and calling \<open>postMessage\<close> on it
  throws a \<open>TypeError\<close>.
\<close>

definition has_type :: "message_data \<Rightarrow> string \<Rightarrow> bool" where
  "has_type data t = (case data of NoData \<Rightarrow> False | Data ty \<Rightarrow> ty = Some t)"

definition message_listener :: "message_data \<Rightarrow> port list \<Rightarrow> unit promise" where
  "message_listener data ports =
     then_p (if has_type data ''SKIP_WAITING'' then skipWaiting else resolve ())
       (\<lambda>_. if has_type data ''PING''
            then (case ports of
                    [] \<Rightarrow> reject TypeError
                  | port0 # _ \<Rightarrow>
                      postMessage port0 \<lparr>reply.type = ''PONG'', reply.status = ''Service Worker ativo''\<rparr>)
            else resolve ())"

text \<open>
  The \<open>notificationclose\<close> listener (lines 144 to 146) only writes to the console. The
  \<open>sync\<close> listener (lines 163 to 185), given \<open>event.tag\<close>, waits for \<open>checkPixStatus\<close>,
  whose \<open>try\<close> block writes to the console and returns a resolved promise.
\<close>

definition notificationclose_listener :: "unit promise" where
  "notificationclose_listener = resolve ()"

definition checkPixStatus :: "unit promise" where
  "checkPixStatus = resolve ()"

definition sync_listener :: "string \<Rightarrow> unit promise" where
  "sync_listener event_tag = (if event_tag = ''sync-pix'' then checkPixStatus else resolve ())"

text \<open>The events the platform delivers, and the world after the listener of an event.\<close>

datatype event =
    Install
  | Activate
  | Fetch request
  | Push "string option"
  | NotificationClick string
  | NotificationClose_event
  | Message message_data "port list"
  | Sync string

fun dispatch :: "event \<Rightarrow> world \<Rightarrow> world" where
  "dispatch Install w = snd (install_listener w)"
| "dispatch Activate w = snd (activate_listener w)"
| "dispatch (Fetch request) w = snd (fetch_listener request w)"
| "dispatch (Push data) w = snd (push_listener data w)"
| "dispatch (NotificationClick event_action) w = snd (notificationclick_listener event_action w)"
| "dispatch NotificationClose_event w = snd (notificationclose_listener w)"
| "dispatch (Message data ports) w = snd (message_listener data ports w)"
| "dispatch (Sync event_tag) w = snd (sync_listener event_tag w)"

subsection \<open>Notions of the specification\<close>

text \<open>
  The entries of all caches; a URL of the worker's own origin; an application instance at
  the known entry URL; and two worlds to evaluate the listeners in: a fresh one whose
  network answers every request with the same status-200 page, and one that is offline and
  holds a stale cache beside the current one.

  The known entry URL is taken from the specification, not from the listener's test. The
  entry document of the application is the one at its root: the manifest lists it under
  both \<open>/\<close> and \<open>/index.html\<close>, and \<open>/\<close> is where the worker itself opens a new
  instance. An open application instance at the known entry URL is therefore a window
  client whose URL, query and fragment apart, is one of these two under the worker's
  origin.
\<close>

definition entries :: "cache_storage \<Rightarrow> (request \<times> response) list" where
  "entries st = concat (map snd st)"

definition same_origin :: "string \<Rightarrow> string \<Rightarrow> bool" where
  "same_origin origin u = startsWith u (origin @ ''/'')"

definition url_without_query :: "string \<Rightarrow> string" where
  "url_without_query u = takeWhile (\<lambda>c. c \<noteq> CHR ''?'' \<and> c \<noteq> CHR ''#'') u"

definition at_entry_url :: "string \<Rightarrow> client \<Rightarrow> bool" where
  "at_entry_url origin c =
     (client.type c = Window
      \<and> (url_without_query (client.url c) = resolve_url origin ''/''
         \<or> url_without_query (client.url c) = resolve_url origin ''/index.html''))"

definition page_200 :: response where
  "page_200 = \<lparr>status = 200, statusText = ''OK'',
               headers = [(''Content-Type'', ''text/html'')], body = ''<p>PIX</p>''\<rparr>"

definition online_world :: world where
  "online_world =
     \<lparr>location_origin = ''https://pix.example'',
      network = (\<lambda>_. Some page_200),
      caches = [],
      clients = [],
      openWindow_defined = True,
      trace = []\<rparr>"

definition offline_world :: world where
  "offline_world =
     \<lparr>location_origin = ''https://pix.example'',
      network = (\<lambda>_. None),
      caches =
        [(''pix-notifier-v0'', []),
         (CACHE_NAME,
          [(\<lparr>method = ''GET'', url = ''https://pix.example/index.html''\<rparr>, page_200)])],
      clients =
        [\<lparr>client.url = ''https://pix.example/worker.js'', client.type = Worker\<rparr>,
         \<lparr>client.url = ''https://pix.example/index.html?tab=1'', client.type = Window\<rparr>],
      openWindow_defined = True,
      trace = []\<rparr>"

section \<open>Properties of the request interceptor\<close>

subsection \<open>The three ways a fetch event is answered\<close>

lemma fetch_listener_hit:
  "storage_match (caches w) request = Some cached \<Longrightarrow> fetch_listener request w = (Inr cached, w)"
  by (simp add: fetch_listener_def catch_p_def then_p_def caches_match_def resolve_def)

lemma fetch_listener_always_responds: "\<exists>r w'. fetch_listener request w = (Inr r, w')"
  by (auto simp add: fetch_listener_def catch_p_def then_p_def caches_match_def resolve_def
      fetch_def detach_def split: option.splits sum.splits prod.splits)

text \<open>
  Claim C1. When the cache storage holds an entry that matches the request of a fetch event,
  the listener answers with that entry and leaves the world as it was: nothing is added to
  the trace, so no network call is made, and the network of the world plays no part.
\<close>

theorem cache_precedes_network:
  "storage_match (caches w) request = Some cached \<Longrightarrow>
     fetch_listener request w = (Inr cached, w)
     \<and> trace (snd (fetch_listener request w)) = trace w"
  by (simp add: fetch_listener_def catch_p_def then_p_def caches_match_def resolve_def)

theorem cache_precedes_network_witness:
  "storage_match (caches offline_world)
       \<lparr>method = ''GET'', url = ''https://pix.example/index.html#top''\<rparr> = Some page_200
   \<and> fetch_listener \<lparr>method = ''GET'', url = ''https://pix.example/index.html#top''\<rparr> offline_world
       = (Inr page_200, offline_world)"
proof -
  have hit: "storage_match (caches offline_world)
               \<lparr>method = ''GET'', url = ''https://pix.example/index.html#top''\<rparr> = Some page_200"
    by (simp add: offline_world_def cache_match_def request_matches_def strip_fragment_def)
  show ?thesis
    using hit cache_precedes_network [OF hit] by simp
qed

text \<open>
  Claim C2. When no entry matches the request and the network call fails, the promise given
  to \<open>respondWith\<close> resolves (it does not reject) with the fallback response, whose status
  is 503 and whose content type is \<open>text/plain\<close>.
\<close>

theorem offline_fallback:
  "storage_match (caches w) request = None \<Longrightarrow> network w request = None \<Longrightarrow>
     fetch_listener request w = (Inr offline_response, log (NetFetch request) w)
     \<and> status offline_response = 503
     \<and> header_values (headers offline_response) ''content-type'' = [''text/plain'']"
  by (simp add: fetch_listener_def catch_p_def then_p_def caches_match_def resolve_def fetch_def
      offline_response_def header_values_def ascii_lower_def)

theorem offline_fallback_witness:
  "storage_match (caches offline_world) \<lparr>method = ''GET'', url = ''https://pix.example/app.css''\<rparr> = None
   \<and> network offline_world \<lparr>method = ''GET'', url = ''https://pix.example/app.css''\<rparr> = None
   \<and> fst (fetch_listener \<lparr>method = ''GET'', url = ''https://pix.example/app.css''\<rparr> offline_world)
       = Inr offline_response
   \<and> status offline_response = 503"
proof -
  have miss: "storage_match (caches offline_world)
                \<lparr>method = ''GET'', url = ''https://pix.example/app.css''\<rparr> = None"
    by (simp add: offline_world_def cache_match_def request_matches_def strip_fragment_def)
  have down: "network offline_world \<lparr>method = ''GET'', url = ''https://pix.example/app.css''\<rparr> = None"
    by (simp add: offline_world_def)
  show ?thesis
    using miss down offline_fallback [OF miss down] by simp
qed

text \<open>
  Claim C3. For a request whose URL contains \<open>/api/\<close> the listener leaves the cache storage
  as it was, whatever the network answers: the only call it may add to the trace is the
  network call, never a cache write.
\<close>

theorem api_never_cached:
  "str_includes (url request) ''/api/'' \<Longrightarrow>
     caches (snd (fetch_listener request w)) = caches w
     \<and> (trace (snd (fetch_listener request w)) = trace w
        \<or> trace (snd (fetch_listener request w)) = trace w @ [NetFetch request])"
  by (simp add: fetch_listener_def catch_p_def then_p_def caches_match_def resolve_def fetch_def
      log_def split: option.splits)

theorem api_never_cached_witness:
  "str_includes ''https://pix.example/api/pix/42'' ''/api/''
   \<and> network online_world \<lparr>method = ''GET'', url = ''https://pix.example/api/pix/42''\<rparr> = Some page_200
   \<and> caches (snd (fetch_listener \<lparr>method = ''GET'', url = ''https://pix.example/api/pix/42''\<rparr>
                    online_world)) = []"
proof -
  have api: "str_includes (url \<lparr>method = ''GET'', url = ''https://pix.example/api/pix/42''\<rparr>) ''/api/''"
    by simp
  show ?thesis
    using api api_never_cached [OF api, of online_world] by (simp add: online_world_def)
qed

subsection \<open>Writing an entry and reading it back\<close>

lemma request_matches_self: "method req = ''GET'' \<Longrightarrow> request_matches req req"
  by (simp add: request_matches_def)

lemma find_filter_append: "P x \<Longrightarrow> find P (filter (\<lambda>y. \<not> P y) xs @ [x]) = Some x"
  by (induction xs) auto

lemma cache_match_put:
  assumes "method req = ''GET''"
  shows "cache_match (cache_put c req resp) req = Some resp"
proof -
  let ?P = "\<lambda>(cached, _). request_matches req cached"
  have eq: "(\<lambda>(cached, _). \<not> request_matches req cached) = (\<lambda>y. \<not> ?P y)"
    by (simp add: fun_eq_iff split: prod.splits)
  have "?P (req, resp)"
    using assms by (simp add: request_matches_self)
  then have "find ?P (filter (\<lambda>y. \<not> ?P y) c @ [(req, resp)]) = Some (req, resp)"
    by (rule find_filter_append)
  then show ?thesis
    by (simp add: cache_match_def cache_put_def eq)
qed

lemma storage_open_Cons:
  "storage_open ((n, c) # rest) name =
     (if n = name then (n, c) # rest else (n, c) # storage_open rest name)"
  by (simp add: storage_open_def storage_keys_def)

lemma storage_put_Cons:
  "storage_put ((n, c) # rest) name req resp =
     (if n = name then (n, cache_put c req resp) else (n, c)) # storage_put rest name req resp"
  by (simp add: storage_put_def)

lemma storage_match_after_put:
  assumes "method req = ''GET''"
  shows "storage_match st req = None \<Longrightarrow>
         storage_match (storage_put (storage_open st name) name req resp) req = Some resp"
proof (induction st)
  case Nil
  show ?case
    using assms by (simp add: storage_open_def storage_keys_def storage_put_def cache_match_put)
next
  case (Cons entry rest)
  obtain n c where entry: "entry = (n, c)" by (cases entry)
  from Cons.prems entry have miss: "cache_match c req = None"
    and rest: "storage_match rest req = None"
    by (auto split: option.splits)
  show ?case
  proof (cases "n = name")
    case True
    then show ?thesis
      using assms entry by (simp add: storage_open_Cons storage_put_Cons cache_match_put)
  next
    case False
    then show ?thesis
      using entry miss Cons.IH [OF rest] by (simp add: storage_open_Cons storage_put_Cons)
  qed
qed

lemma storage_cache_after_put:
  "storage_cache (storage_put (storage_open st name) name req resp) name =
     cache_put (storage_cache st name) req resp"
proof (induction st)
  case Nil
  show ?case
    by (simp add: storage_open_def storage_keys_def storage_put_def storage_cache_def)
next
  case (Cons entry rest)
  obtain n c where entry: "entry = (n, c)" by (cases entry)
  show ?case
  proof (cases "n = name")
    case True
    then show ?thesis
      using entry by (simp add: storage_open_Cons storage_put_Cons storage_cache_def)
  next
    case False
    then show ?thesis
      using entry Cons.IH by (simp add: storage_open_Cons storage_put_Cons storage_cache_def)
  qed
qed

lemma fetch_listener_write:
  assumes "put_admissible request resp"
    and "\<not> str_includes (url request) ''/api/''"
    and "storage_match (caches w) request = None"
    and "network w request = Some resp"
    and "status resp = 200"
  shows "fetch_listener request w =
           (Inr resp,
            log (CachePut CACHE_NAME request resp)
              ((log (NetFetch request) w)
                 \<lparr>caches := storage_put (storage_open (caches w) CACHE_NAME) CACHE_NAME request resp\<rparr>))"
  using assms
  by (simp add: fetch_listener_def catch_p_def then_p_def caches_match_def resolve_def fetch_def
      detach_def caches_open_def cache_put_p_def clone_def log_def)

text \<open>
  Claim C4, as stated, fails. A \<open>POST\<close> request that is not an API request and gets a
  status-200 response from the network reaches \<open>cache.put\<close>, which rejects it (the cache
  stores \<open>GET\<close> requests only); the rejection is lost with the detached promise, and no
  entry exists afterwards. The page still gets the response.
\<close>

theorem post_response_not_cached:
  "\<not> str_includes (url \<lparr>method = ''POST'', url = ''https://pix.example/pix/confirm''\<rparr>) ''/api/''
   \<and> storage_match (caches online_world)
        \<lparr>method = ''POST'', url = ''https://pix.example/pix/confirm''\<rparr> = None
   \<and> network online_world \<lparr>method = ''POST'', url = ''https://pix.example/pix/confirm''\<rparr>
        = Some page_200
   \<and> status page_200 = 200
   \<and> fst (fetch_listener \<lparr>method = ''POST'', url = ''https://pix.example/pix/confirm''\<rparr>
            online_world) = Inr page_200
   \<and> entries (caches (snd (fetch_listener
                      \<lparr>method = ''POST'', url = ''https://pix.example/pix/confirm''\<rparr>
                      online_world))) = []"
  by (simp add: fetch_listener_def catch_p_def then_p_def caches_match_def resolve_def fetch_def
      detach_def caches_open_def cache_put_p_def put_admissible_def clone_def log_def
      online_world_def page_200_def storage_open_def storage_keys_def entries_def)

text \<open>
  Claim C4, amended. For a \<open>GET\<close> request with an \<open>http\<close> or \<open>https\<close> URL that is not an API
  request and that no entry matches, when the network answers with a status-200 response
  without \<open>Vary: *\<close>: the listener resolves with that very response (status, headers and
  body as the network sent them); once the detached write has settled, the cache of the
  current version holds the response under the request; and the same request asked again
  in the resulting world, whatever the network has become, is answered with the same
  response from the cache, the world staying as it is (no network call).
\<close>

theorem cache_write_round_trip:
  assumes "method request = ''GET''"
    and "http_scheme (url request)"
    and "\<not> str_includes (url request) ''/api/''"
    and "storage_match (caches w) request = None"
    and "network w request = Some resp"
    and "status resp = 200"
    and "\<not> vary_star resp"
  shows "\<exists>w'. fetch_listener request w = (Inr resp, w')
           \<and> cache_match (storage_cache (caches w') CACHE_NAME) request = Some resp
           \<and> (\<forall>net. fetch_listener request (w'\<lparr>network := net\<rparr>)
                       = (Inr resp, w'\<lparr>network := net\<rparr>))"
proof -
  let ?w' = "log (CachePut CACHE_NAME request resp)
              ((log (NetFetch request) w)
                 \<lparr>caches := storage_put (storage_open (caches w) CACHE_NAME) CACHE_NAME request resp\<rparr>)"
  have adm: "put_admissible request resp"
    using assms by (simp add: put_admissible_def)
  have run: "fetch_listener request w = (Inr resp, ?w')"
    using adm assms(3-6) by (rule fetch_listener_write)
  have caches: "caches ?w' = storage_put (storage_open (caches w) CACHE_NAME) CACHE_NAME request resp"
    by (simp add: log_def)
  have entry: "cache_match (storage_cache (caches ?w') CACHE_NAME) request = Some resp"
    using assms(1) by (simp add: caches storage_cache_after_put cache_match_put)
  have hit: "storage_match (caches ?w') request = Some resp"
    using assms(1,4) by (simp add: caches storage_match_after_put)
  have again: "fetch_listener request (?w'\<lparr>network := net\<rparr>) = (Inr resp, ?w'\<lparr>network := net\<rparr>)"
    for net
    by (rule fetch_listener_hit) (simp add: hit)
  show ?thesis
    using run entry again by blast
qed

theorem cache_write_round_trip_witness:
  "fst (fetch_listener \<lparr>method = ''GET'', url = ''https://pix.example/app.css''\<rparr> online_world)
     = Inr page_200
   \<and> fst (fetch_listener \<lparr>method = ''GET'', url = ''https://pix.example/app.css''\<rparr>
            ((snd (fetch_listener \<lparr>method = ''GET'', url = ''https://pix.example/app.css''\<rparr>
                     online_world))\<lparr>network := (\<lambda>_. None)\<rparr>))
     = Inr page_200"
proof -
  let ?request = "\<lparr>method = ''GET'', url = ''https://pix.example/app.css''\<rparr>"
  have "method ?request = ''GET''"
    and "http_scheme (url ?request)"
    and "\<not> str_includes (url ?request) ''/api/''"
    and "storage_match (caches online_world) ?request = None"
    and "network online_world ?request = Some page_200"
    and "status page_200 = 200"
    and "\<not> vary_star page_200"
    by (simp_all add: http_scheme_def startsWith_def online_world_def page_200_def vary_star_def
        header_values_def ascii_lower_def)
  from cache_write_round_trip [OF this]
  obtain w' where run: "fetch_listener ?request online_world = (Inr page_200, w')"
    and again: "\<forall>net. fetch_listener ?request (w'\<lparr>network := net\<rparr>)
                        = (Inr page_200, w'\<lparr>network := net\<rparr>)"
    by blast
  from run again show ?thesis
    by simp
qed

subsection \<open>Which entries are ever written\<close>

lemma fetch_all:
  "promise_all (map fetch reqs) w =
     (if list_all (\<lambda>r. network w r \<noteq> None) reqs
      then Inr (map (\<lambda>r. the (network w r)) reqs)
      else Inl NetworkError,
      w\<lparr>trace := trace w @ map NetFetch reqs\<rparr>)"
proof (induction reqs arbitrary: w)
  case Nil
  show ?case by (simp add: resolve_def)
next
  case (Cons r reqs)
  have step: "fetch r w =
                (case network w r of Some x \<Rightarrow> Inr x | None \<Rightarrow> Inl NetworkError,
                 log (NetFetch r) w)"
    by (simp add: fetch_def split: option.splits)
  show ?case
    by (cases "network w r") (simp_all add: step Cons.IH log_def)
qed

lemma keys_storage_put: "storage_keys (storage_put st name req resp) = storage_keys st"
  by (induction st) (auto simp add: storage_keys_def storage_put_def)

lemma keys_storage_open:
  "storage_keys (storage_open st name) =
     (if name \<in> set (storage_keys st) then storage_keys st else storage_keys st @ [name])"
  by (simp add: storage_open_def storage_keys_def)

lemma entries_storage_open: "entries (storage_open st name) = entries st"
  by (simp add: storage_open_def entries_def)

lemma set_cache_put: "set (cache_put c req resp) \<subseteq> insert (req, resp) (set c)"
  by (auto simp add: cache_put_def)

lemma entries_storage_put:
  "set (entries (storage_put st name req resp)) \<subseteq> insert (req, resp) (set (entries st))"
proof (induction st)
  case Nil
  show ?case by (simp add: entries_def storage_put_def)
next
  case (Cons e st)
  obtain n c where e: "e = (n, c)" by (cases e)
  have "entries (storage_put (e # st) name req resp)
          = (if n = name then cache_put c req resp else c) @ entries (storage_put st name req resp)"
    by (simp add: e entries_def storage_put_def)
  moreover have "entries (e # st) = c @ entries st"
    by (simp add: e entries_def)
  ultimately show ?case
    using Cons.IH set_cache_put [of c req resp] by auto
qed

lemma keys_put_all: "storage_keys (caches (put_all cache es w)) = storage_keys (caches w)"
  by (induction cache es w rule: put_all.induct) (simp_all add: keys_storage_put log_def)

lemma entries_put_all:
  "set (entries (caches (put_all cache es w))) \<subseteq> set es \<union> set (entries (caches w))"
proof (induction cache es w rule: put_all.induct)
  case (1 cache w)
  show ?case by simp
next
  case (2 cache req resp rest w)
  let ?w = "log (CachePut cache req resp) (w\<lparr>caches := storage_put (caches w) cache req resp\<rparr>)"
  have "set (entries (caches ?w)) \<subseteq> insert (req, resp) (set (entries (caches w)))"
    using entries_storage_put by (simp add: log_def)
  with "2.IH" show ?case
    by auto
qed

lemma cache_addAll_run:
  fixes w :: world and urls :: "string list"
  defines "requests \<equiv> map (\<lambda>u. \<lparr>method = ''GET'', url = resolve_url (location_origin w) u\<rparr>) urls"
  defines "responses \<equiv> map (\<lambda>r. the (network w r)) requests"
  defines "w1 \<equiv> w\<lparr>trace := trace w @ map NetFetch requests\<rparr>"
  shows "cache_addAll cache urls w =
     (if \<not> list_all (\<lambda>r. http_scheme (url r)) requests then (Inl TypeError, w)
      else if \<not> list_all (\<lambda>r. network w r \<noteq> None) requests then (Inl NetworkError, w1)
      else if list_all (\<lambda>r. ok_status r \<and> status r \<noteq> 206 \<and> \<not> vary_star r) responses
      then (Inr (), put_all cache (zip requests responses) w1)
      else (Inl TypeError, w1))"
  unfolding requests_def responses_def w1_def
  by (simp add: cache_addAll_def Let_def then_p_def fetch_all reject_def del: map_map)

lemma install_keys:
  "storage_keys (caches (snd (install_listener w))) = storage_keys (storage_open (caches w) CACHE_NAME)"
  by (simp add: install_listener_def then_p_def caches_open_def cache_addAll_run skipWaiting_def
      log_def keys_put_all del: map_map)

text \<open>
  Whether the installation succeeds or not, it leaves a cache of the current name behind,
  and the names of the caches stay distinct. The \<open>activate\<close> event of a version comes after
  its successful \<open>install\<close> event.
\<close>

lemma install_opens_current_cache:
  "CACHE_NAME \<in> set (storage_keys (caches (snd (install_listener w))))"
  by (simp add: install_keys keys_storage_open)

lemma install_keeps_names_distinct:
  "distinct (storage_keys (caches w)) \<Longrightarrow>
     distinct (storage_keys (caches (snd (install_listener w))))"
  by (simp add: install_keys keys_storage_open)

lemma install_entries:
  assumes "e \<in> set (entries (caches (snd (install_listener w))))"
    and "e \<notin> set (entries (caches w))"
  shows "\<exists>u \<in> set urlsToCache.
           fst e = \<lparr>method = ''GET'', url = resolve_url (location_origin w) u\<rparr>
           \<and> network w (fst e) = Some (snd e) \<and> ok_status (snd e)"
proof -
  define requests where
    "requests = map (\<lambda>u. \<lparr>method = ''GET'', url = resolve_url (location_origin w) u\<rparr>) urlsToCache"
  define responses where "responses = map (\<lambda>r. the (network w r)) requests"
  define w0 where "w0 = w\<lparr>caches := storage_open (caches w) CACHE_NAME\<rparr>"
  define w1 where "w1 = w0\<lparr>trace := trace w0 @ map NetFetch requests\<rparr>"
  have base: "entries (caches w1) = entries (caches w)" "entries (caches w0) = entries (caches w)"
    by (simp_all add: w1_def w0_def entries_storage_open)
  have run: "caches (snd (install_listener w)) = caches w0
             \<or> caches (snd (install_listener w)) = caches w1
             \<or> (list_all (\<lambda>r. network w r \<noteq> None) requests
                 \<and> list_all (\<lambda>r. ok_status r \<and> status r \<noteq> 206 \<and> \<not> vary_star r) responses
                 \<and> caches (snd (install_listener w))
                      = caches (put_all CACHE_NAME (zip requests responses) w1))"
    unfolding requests_def responses_def w1_def w0_def
    by (simp add: install_listener_def then_p_def caches_open_def cache_addAll_run skipWaiting_def
      log_def del: map_map)
  from run assms base
  have ok: "list_all (\<lambda>r. network w r \<noteq> None) requests"
    and oks: "list_all (\<lambda>r. ok_status r \<and> status r \<noteq> 206 \<and> \<not> vary_star r) responses"
    and c: "caches (snd (install_listener w))
              = caches (put_all CACHE_NAME (zip requests responses) w1)"
    by auto
  from assms c base entries_put_all [of CACHE_NAME "zip requests responses" w1]
  have "e \<in> set (zip requests responses)"
    by auto
  then obtain i where i: "i < length requests" "e = (requests ! i, responses ! i)"
    by (auto simp add: set_zip)
  then have "snd e = the (network w (fst e))" "network w (fst e) \<noteq> None" "ok_status (snd e)"
    using ok oks by (auto simp add: responses_def list_all_length)
  moreover have "fst e \<in> set requests"
    using i by simp
  ultimately show ?thesis
    by (auto simp add: requests_def)
qed

lemma fetch_entries:
  assumes "e \<in> set (entries (caches (snd (fetch_listener request w))))"
    and "e \<notin> set (entries (caches w))"
  shows "fst e = request \<and> network w request = Some (snd e) \<and> status (snd e) = 200
         \<and> \<not> str_includes (url request) ''/api/'' \<and> put_admissible request (snd e)"
proof -
  have "caches (snd (fetch_listener request w)) = caches w
        \<or> caches (snd (fetch_listener request w)) = storage_open (caches w) CACHE_NAME
        \<or> (\<exists>r. network w request = Some r \<and> status r = 200
               \<and> \<not> str_includes (url request) ''/api/'' \<and> put_admissible request r
               \<and> caches (snd (fetch_listener request w))
                    = storage_put (storage_open (caches w) CACHE_NAME) CACHE_NAME request r)"
    by (simp add: fetch_listener_def catch_p_def then_p_def caches_match_def resolve_def
        fetch_def detach_def caches_open_def cache_put_p_def clone_def log_def
        split: option.splits)
  with assms obtain r where r: "network w request = Some r" "status r = 200"
      "\<not> str_includes (url request) ''/api/''" "put_admissible request r"
    and c: "caches (snd (fetch_listener request w))
              = storage_put (storage_open (caches w) CACHE_NAME) CACHE_NAME request r"
    by (auto simp add: entries_storage_open)
  from assms c entries_storage_put [of "storage_open (caches w) CACHE_NAME" CACHE_NAME request r]
  have "e = (request, r)"
    by (auto simp add: entries_storage_open)
  with r show ?thesis
    by simp
qed

section \<open>Properties of the cache lifecycle\<close>

subsection \<open>The sweep of the \<open>activate\<close> listener\<close>

lemma sweep_world:
  "snd (promise_all
          (map (\<lambda>cacheName.
                  if cacheName \<noteq> CACHE_NAME
                  then then_p (caches_delete cacheName) (\<lambda>deleted. resolve (Some deleted))
                  else resolve None)
             names) w) =
   w\<lparr>caches := filter (\<lambda>e. fst e = CACHE_NAME \<or> fst e \<notin> set names) (caches w),
     trace := trace w @ map CacheDelete (filter (\<lambda>n. n \<noteq> CACHE_NAME) names)\<rparr>"
proof (induction names arbitrary: w)
  case Nil
  show ?case by (simp add: resolve_def)
next
  case (Cons name names)
  show ?case
  proof (cases "name = CACHE_NAME")
    case True
    have "filter (\<lambda>e. fst e = CACHE_NAME \<or> fst e \<notin> set (name # names)) st
        = filter (\<lambda>e. fst e = CACHE_NAME \<or> fst e \<notin> set names) st" for st :: cache_storage
      using True by (intro filter_cong) auto
    then show ?thesis
      using True Cons.IH [of w]
      by (simp add: resolve_def case_prod_unfold)
  next
    case False
    have "filter (\<lambda>e. fst e = CACHE_NAME \<or> fst e \<notin> set names) (filter (\<lambda>e. fst e \<noteq> name) st)
        = filter (\<lambda>e. fst e = CACHE_NAME \<or> fst e \<notin> set (name # names)) st" for st :: cache_storage
      using False by (induction st) auto
    then show ?thesis
      using False Cons.IH [of "log (CacheDelete name) (w\<lparr>caches := storage_delete (caches w) name\<rparr>)"]
      by (simp add: resolve_def then_p_def caches_delete_def log_def storage_delete_def
          case_prod_unfold)
  qed
qed

lemma sweep_resolves:
  "\<exists>xs. fst (promise_all
               (map (\<lambda>cacheName.
                       if cacheName \<noteq> CACHE_NAME
                       then then_p (caches_delete cacheName) (\<lambda>deleted. resolve (Some deleted))
                       else resolve None)
                  names) w) = Inr xs"
proof (induction names arbitrary: w)
  case Nil
  show ?case by (simp add: resolve_def)
next
  case (Cons name names)
  show ?case
  proof (cases "name = CACHE_NAME")
    case True
    then show ?thesis
      using Cons.IH [of w]
      by (auto simp add: resolve_def split: prod.splits sum.splits)
  next
    case False
    then show ?thesis
      using Cons.IH [of "log (CacheDelete name) (w\<lparr>caches := storage_delete (caches w) name\<rparr>)"]
      by (auto simp add: resolve_def then_p_def caches_delete_def split: prod.splits sum.splits)
  qed
qed

lemma activate_listener_run:
  "activate_listener w =
     (Inr (),
      w\<lparr>caches := filter (\<lambda>(n, _). n = CACHE_NAME) (caches w),
        trace := trace w
                 @ map CacheDelete (filter (\<lambda>n. n \<noteq> CACHE_NAME) (storage_keys (caches w)))
                 @ [ClientsClaim]\<rparr>)"
proof -
  let ?sweep = "promise_all
     (map (\<lambda>cacheName.
             if cacheName \<noteq> CACHE_NAME
             then then_p (caches_delete cacheName) (\<lambda>deleted. resolve (Some deleted))
             else resolve None)
        (storage_keys (caches w)))"
  obtain xs where res: "fst (?sweep w) = Inr xs"
    using sweep_resolves by blast
  have flt: "filter (\<lambda>e. fst e = CACHE_NAME \<or> fst e \<notin> set (storage_keys st)) st
               = filter (\<lambda>(n, _). n = CACHE_NAME) st" for st :: cache_storage
    by (rule filter_cong) (auto simp add: storage_keys_def)
  have "?sweep w = (Inr xs, snd (?sweep w))"
    using res by (simp add: prod_eq_iff)
  then show ?thesis
    by (simp add: activate_listener_def then_p_def caches_keys_def clients_claim_def log_def
        sweep_world flt)
qed

lemma filter_eq_single: "distinct xs \<Longrightarrow> a \<in> set xs \<Longrightarrow> filter (\<lambda>n. n = a) xs = [a]"
  by (induction xs) (auto simp add: filter_empty_conv)

lemma keys_filter: "storage_keys (filter (\<lambda>(n, _). P n) st) = filter P (storage_keys st)"
  by (induction st) (auto simp add: storage_keys_def)

lemma map_of_filter_name: "map_of (filter (\<lambda>(n, _). n = a) st) a = map_of st a"
  by (induction st) auto

subsection \<open>The entries the worker writes\<close>

lemma entries_activate:
  "set (entries (caches (snd (activate_listener w)))) \<subseteq> set (entries (caches w))"
  by (auto simp add: activate_listener_run entries_def)

lemma caches_push: "caches (snd (push_listener data w)) = caches w"
  by (simp add: push_listener_def showNotification_def log_def)

lemma caches_notificationclick: "caches (snd (notificationclick_listener event_action w)) = caches w"
  by (simp add: notificationclick_listener_def then_p_def notification_close_def
      clients_matchAll_window_def client_focus_def clients_openWindow_def resolve_def log_def
      split: option.splits)

lemma caches_message: "caches (snd (message_listener data ports w)) = caches w"
  by (simp add: message_listener_def then_p_def skipWaiting_def postMessage_def resolve_def
      reject_def log_def split: list.splits)

lemma caches_sync: "caches (snd (sync_listener event_tag w)) = caches w"
  by (simp add: sync_listener_def checkPixStatus_def resolve_def)

text \<open>
  Claim C7, as stated, fails: the listener never looks at the origin of a request. A \<open>GET\<close>
  request to another origin (here the icon of the notification, on a CDN) that gets a
  status-200 response is written to the cache like any other.
\<close>

theorem cross_origin_response_cached:
  "\<not> same_origin (location_origin online_world)
        (url \<lparr>method = ''GET'', url = ''https://cdn-icons-png.flaticon.com/512/825/825454.png''\<rparr>)
   \<and> entries (caches online_world) = []
   \<and> entries (caches (snd (fetch_listener
                 \<lparr>method = ''GET'', url = ''https://cdn-icons-png.flaticon.com/512/825/825454.png''\<rparr>
                 online_world)))
       = [(\<lparr>method = ''GET'', url = ''https://cdn-icons-png.flaticon.com/512/825/825454.png''\<rparr>,
           page_200)]"
  by (simp add: fetch_listener_def catch_p_def then_p_def caches_match_def resolve_def fetch_def
      detach_def caches_open_def cache_put_p_def put_admissible_def clone_def log_def
      online_world_def page_200_def storage_open_def storage_keys_def storage_put_def
      cache_put_def entries_def same_origin_def startsWith_def http_scheme_def vary_star_def
      header_values_def ascii_lower_def Let_def)

text \<open>
  Claim C7, amended. Whatever event the worker handles, an entry that is in the cache
  storage afterwards and was not there before is a \<open>GET\<close> request together with the
  response the network gave to it, and it was written in one of two ways: by the \<open>fetch\<close>
  listener for the request of its event, the response having status 200 and the URL not
  containing \<open>/api/\<close>; or by the \<open>install\<close> listener for a URL of the manifest under the
  worker's origin, the response having a status from 200 to 299. The origin of a request
  is not a condition of the \<open>fetch\<close> listener's write.
\<close>

theorem written_entries:
  assumes "(q, r) \<in> set (entries (caches (dispatch ev w)))"
    and "(q, r) \<notin> set (entries (caches w))"
  shows "method q = ''GET'' \<and> network w q = Some r
         \<and> (ev = Fetch q \<and> status r = 200 \<and> \<not> str_includes (url q) ''/api/''
            \<or> ev = Install \<and> ok_status r \<and> same_origin (location_origin w) (url q)
               \<and> list_ex (\<lambda>u. url q = resolve_url (location_origin w) u) urlsToCache)"
proof (cases ev)
  case Install
  with assms install_entries [of "(q, r)" w]
  obtain u where u: "u \<in> set urlsToCache"
      "q = \<lparr>method = ''GET'', url = resolve_url (location_origin w) u\<rparr>"
    and r: "network w q = Some r" "ok_status r"
    by auto
  from u have "same_origin (location_origin w) (url q)"
    by (auto simp add: urlsToCache_def resolve_url_def same_origin_def startsWith_def)
  with Install u r show ?thesis
    by (auto simp add: list_ex_iff)
next
  case Activate
  with assms entries_activate [of w] show ?thesis
    by auto
next
  case (Fetch request)
  with assms fetch_entries [of "(q, r)" request w] show ?thesis
    by (auto simp add: put_admissible_def)
next
  case (Push data)
  with assms show ?thesis
    by (simp add: caches_push)
next
  case (NotificationClick event_action)
  with assms show ?thesis
    by (simp add: caches_notificationclick)
next
  case NotificationClose_event
  with assms show ?thesis
    by (simp add: notificationclose_listener_def resolve_def)
next
  case (Message data ports)
  with assms show ?thesis
    by (simp add: caches_message)
next
  case (Sync event_tag)
  with assms show ?thesis
    by (simp add: caches_sync)
qed

theorem written_entries_witness:
  "(\<lparr>method = ''GET'', url = ''https://pix.example/app.css''\<rparr>, page_200)
     \<in> set (entries (caches (dispatch (Fetch \<lparr>method = ''GET'', url = ''https://pix.example/app.css''\<rparr>)
                                online_world)))
   \<and> (\<lparr>method = ''GET'', url = ''https://pix.example/app.css''\<rparr>, page_200)
     \<notin> set (entries (caches online_world))
   \<and> network online_world \<lparr>method = ''GET'', url = ''https://pix.example/app.css''\<rparr> = Some page_200
   \<and> status page_200 = 200"
proof -
  let ?q = "\<lparr>method = ''GET'', url = ''https://pix.example/app.css''\<rparr>"
  have new: "(?q, page_200) \<in> set (entries (caches (dispatch (Fetch ?q) online_world)))"
    by (simp add: fetch_listener_def catch_p_def then_p_def caches_match_def resolve_def fetch_def
      detach_def caches_open_def cache_put_p_def put_admissible_def clone_def log_def
      online_world_def page_200_def storage_open_def storage_keys_def storage_put_def
      cache_put_def entries_def startsWith_def http_scheme_def vary_star_def
      header_values_def ascii_lower_def Let_def)
  have old: "(?q, page_200) \<notin> set (entries (caches online_world))"
    by (simp add: online_world_def entries_def)
  from written_entries [OF new old] new old show ?thesis
    by auto
qed

subsection \<open>The names of the caches over the life of the worker\<close>

lemma fetch_keys:
  "storage_keys (caches (snd (fetch_listener request w))) = storage_keys (caches w)
   \<or> storage_keys (caches (snd (fetch_listener request w)))
        = storage_keys (storage_open (caches w) CACHE_NAME)"
  by (simp add: fetch_listener_def catch_p_def then_p_def caches_match_def resolve_def
      fetch_def detach_def caches_open_def cache_put_p_def clone_def log_def keys_storage_put
      split: option.splits)

text \<open>No listener ever gives two caches the same name.\<close>

lemma dispatch_keeps_names_distinct:
  assumes "distinct (storage_keys (caches w))"
  shows "distinct (storage_keys (caches (dispatch ev w)))"
proof (cases ev)
  case Install
  with assms show ?thesis
    by (simp add: install_keeps_names_distinct)
next
  case Activate
  with assms show ?thesis
    by (simp add: activate_listener_run keys_filter)
next
  case (Fetch request)
  with assms fetch_keys [of request w] show ?thesis
    by (auto simp add: keys_storage_open)
next
  case (Push data)
  with assms show ?thesis
    by (simp add: caches_push)
next
  case (NotificationClick event_action)
  with assms show ?thesis
    by (simp add: caches_notificationclick)
next
  case NotificationClose_event
  with assms show ?thesis
    by (simp add: notificationclose_listener_def resolve_def)
next
  case (Message data ports)
  with assms show ?thesis
    by (simp add: caches_message)
next
  case (Sync event_tag)
  with assms show ?thesis
    by (simp add: caches_sync)
qed

text \<open>Once the current cache exists, every listener leaves it in place.\<close>

lemma dispatch_keeps_current_cache:
  assumes "CACHE_NAME \<in> set (storage_keys (caches w))"
  shows "CACHE_NAME \<in> set (storage_keys (caches (dispatch ev w)))"
proof (cases ev)
  case Install
  then show ?thesis
    by (simp add: install_opens_current_cache)
next
  case Activate
  with assms show ?thesis
    by (simp add: activate_listener_run keys_filter)
next
  case (Fetch request)
  with assms fetch_keys [of request w] show ?thesis
    by (auto simp add: keys_storage_open)
next
  case (Push data)
  with assms show ?thesis
    by (simp add: caches_push)
next
  case (NotificationClick event_action)
  with assms show ?thesis
    by (simp add: caches_notificationclick)
next
  case NotificationClose_event
  with assms show ?thesis
    by (simp add: notificationclose_listener_def resolve_def)
next
  case (Message data ports)
  with assms show ?thesis
    by (simp add: caches_message)
next
  case (Sync event_tag)
  with assms show ?thesis
    by (simp add: caches_sync)
qed

text \<open>Activation straight after installation leaves the current cache and no other.\<close>

lemma install_then_activate:
  assumes "distinct (storage_keys (caches w))"
  shows "storage_keys (caches (dispatch Activate (dispatch Install w))) = [CACHE_NAME]"
  using install_keeps_names_distinct [OF assms] install_opens_current_cache [of w]
  by (simp add: activate_listener_run keys_filter filter_eq_single)

text \<open>
  Claim C5. The names of the caches are distinct (\<open>dispatch_keeps_names_distinct\<close>), and
  a cache of the current name exists when the \<open>activate\<close> event arrives: the \<open>install\<close>
  listener of this version has opened it (\<open>install_opens_current_cache\<close>), and every
  listener leaves it in place (\<open>dispatch_keeps_current_cache\<close>). Then, when the
  listener's promise has resolved, the current cache is the only cache left, with its
  entries untouched, and the calls the listener has added to the trace are the deletions
  of all the other names followed by \<open>clients.claim\<close> as the last call.
\<close>

theorem activate_leaves_current_cache:
  assumes "distinct (storage_keys (caches w))"
    and "CACHE_NAME \<in> set (storage_keys (caches w))"
  shows "fst (activate_listener w) = Inr ()
         \<and> storage_keys (caches (snd (activate_listener w))) = [CACHE_NAME]
         \<and> storage_cache (caches (snd (activate_listener w))) CACHE_NAME
             = storage_cache (caches w) CACHE_NAME
         \<and> trace (snd (activate_listener w))
             = trace w
               @ map CacheDelete (filter (\<lambda>n. n \<noteq> CACHE_NAME) (storage_keys (caches w)))
               @ [ClientsClaim]"
  using assms
  by (simp add: activate_listener_run keys_filter filter_eq_single storage_cache_def
      map_of_filter_name)

theorem activate_leaves_current_cache_witness:
  "distinct (storage_keys (caches offline_world))
   \<and> CACHE_NAME \<in> set (storage_keys (caches offline_world))
   \<and> storage_keys (caches offline_world) = [''pix-notifier-v0'', ''pix-notifier-v1'']
   \<and> storage_keys (caches (snd (activate_listener offline_world))) = [''pix-notifier-v1'']
   \<and> trace (snd (activate_listener offline_world))
       = [CacheDelete ''pix-notifier-v0'', ClientsClaim]"
proof -
  have names: "storage_keys (caches offline_world) = [''pix-notifier-v0'', ''pix-notifier-v1'']"
    by (simp add: offline_world_def storage_keys_def CACHE_NAME_def)
  have d: "distinct (storage_keys (caches offline_world))"
    and m: "CACHE_NAME \<in> set (storage_keys (caches offline_world))"
    by (simp_all add: names CACHE_NAME_def)
  have "trace offline_world = []"
    by (simp add: offline_world_def)
  with activate_leaves_current_cache [OF d m] d m names show ?thesis
    by (simp add: CACHE_NAME_def)
qed

section \<open>Properties of the notifications\<close>

text \<open>
  Claim C8. The notification that a push event shows carries the text of the event's
  payload as its body, whatever the text, the text \<open>R$50,00 recebido\<close> for one; without a
  payload the body is \<open>Novo PIX gerado!\<close>. One notification is shown, nothing else is done.
\<close>

theorem push_notification_body:
  "(\<exists>opts. push_listener (Some text) w
             = (Inr (), log (ShowNotification notification_title opts) w)
           \<and> options.body opts = text)
   \<and> (\<exists>opts. push_listener (Some ''R$50,00 recebido'') w
                = (Inr (), log (ShowNotification notification_title opts) w)
              \<and> options.body opts = ''R$50,00 recebido'')
   \<and> (\<exists>opts. push_listener None w
                = (Inr (), log (ShowNotification notification_title opts) w)
              \<and> options.body opts = ''Novo PIX gerado!'')"
proof -
  have run: "push_listener data w
               = (Inr (), log (ShowNotification notification_title (push_options data)) w)" for data
    by (simp add: push_listener_def showNotification_def)
  have "options.body (push_options (Some t)) = t" for t
    by (simp add: push_options_def)
  moreover have "options.body (push_options None) = ''Novo PIX gerado!''"
    by (simp add: push_options_def)
  ultimately show ?thesis
    using run by blast
qed

subsection \<open>A click on the notification\<close>

text \<open>
  Claim C6 does not hold of the code. The loop recognises an open instance by the text
  \<open>index.html\<close> in its URL, so a window at the root URL \<open>/\<close>, the very URL at which the
  listener opens a new instance, is an instance at the known entry URL that the loop passes
  over. With such a window as the only client, a click on \<open>view\<close> closes the notification,
  focuses nothing and opens a second window at \<open>/\<close>, where the claim, and the comment
  above the loop (focus the window when one is already open), ask for the open one to be
  focused and no new one to be opened.
\<close>

theorem view_click_duplicates_root_window:
  "at_entry_url (location_origin online_world)
      \<lparr>client.url = ''https://pix.example/'', client.type = Window\<rparr>
   \<and> fst (notificationclick_listener ''view''
            (online_world\<lparr>clients :=
               [\<lparr>client.url = ''https://pix.example/'', client.type = Window\<rparr>]\<rparr>))
       = Inr ()
   \<and> trace (snd (notificationclick_listener ''view''
                   (online_world\<lparr>clients :=
                      [\<lparr>client.url = ''https://pix.example/'', client.type = Window\<rparr>]\<rparr>)))
       = [NotificationClose, OpenWindow ''/'']"
  by (simp add: notificationclick_listener_def then_p_def notification_close_def
      clients_matchAll_window_def clients_openWindow_def log_def has_focus_def
      online_world_def at_entry_url_def url_without_query_def resolve_url_def)

section \<open>Properties of the control channel\<close>

text \<open>
  Claim C9, as stated, fails: a \<open>PING\<close> message that comes without a port gets no reply.
  The listener throws on \<open>event.ports[0].postMessage\<close> and nothing is sent.
\<close>

theorem ping_without_port_no_reply:
  "fst (message_listener (Data (Some ''PING'')) [] online_world) = Inl TypeError
   \<and> trace (snd (message_listener (Data (Some ''PING'')) [] online_world)) = []"
  by (simp add: message_listener_def has_type_def then_p_def resolve_def reject_def
      online_world_def)

text \<open>
  Claim C9, amended. For a message of type \<open>PING\<close> that comes with at least one port, the
  listener posts exactly one message on the first port, of type \<open>PONG\<close> and with the
  status \<open>Service Worker ativo\<close>, and does nothing else: the world afterwards is the world
  before with that one call added to the trace.
\<close>

theorem ping_gets_one_pong:
  "message_listener (Data (Some ''PING'')) (port0 # ports) w
     = (Inr (),
        log (PostMessage port0 \<lparr>reply.type = ''PONG'', reply.status = ''Service Worker ativo''\<rparr>) w)"
  by (simp add: message_listener_def has_type_def then_p_def resolve_def postMessage_def)

text \<open>
  Claim C10. For a message of type \<open>PING\<close> whose list of ports is empty, the listener fails
  with a \<open>TypeError\<close> and leaves the world as it was: no reply is sent.
\<close>

theorem ping_without_port_fails:
  "message_listener (Data (Some ''PING'')) [] w = (Inl TypeError, w)"
  by (simp add: message_listener_def has_type_def then_p_def resolve_def reject_def)

end
